theory Spec2Isabelle
  imports Main
begin

section \<open>Common types\<close>

text \<open>
  A thrown JavaScript \<^verbatim>\<open>Error\<close> is represented by its message. A function of the source
  that may throw (or an awaited promise that may reject) returns \<open>error + 'a\<close>, with
  \<open>Inl\<close> for the throw or rejection.
\<close>

datatype error = Error string

section \<open>VDS: the development asset server (src/core/VDS.ts)\<close>

text \<open>
  A \<^verbatim>\<open>ViteDevServer\<close> is an opaque engine handle; the model only needs its identity.
  Every call of vite's \<^verbatim>\<open>createServer\<close> makes one promise. The promises made so far are
  kept in a table, in creation order, so the number of \<^verbatim>\<open>createServer\<close> calls is the
  length of the table and \<^verbatim>\<open>promiseVDS\<close> is an index into it.
\<close>

type_synonym server = nat

datatype settlement = Pending | Fulfilled server | Rejected error

record VDS =
  promiseVDS :: "nat option"
  instanceVDS :: "server option"
  promises :: "settlement list"
  closedEngines :: "server list"

text \<open>The state after the constructor: both fields \<^verbatim>\<open>null\<close>, nothing created or closed.\<close>

definition newVDS :: VDS where
  "newVDS = \<lparr>promiseVDS = None, instanceVDS = None, promises = [], closedEngines = []\<rparr>"

definition createCalls :: "VDS \<Rightarrow> nat" where
  "createCalls s = length (promises s)"

text \<open>
  What a caller of \<^verbatim>\<open>getVDS\<close> is handed: the live instance, or the shared promise
  (by its index in the table).
\<close>

datatype awaited = Instance server | Promise nat

text \<open>
  \<^verbatim>\<open>getVDS\<close> runs without suspension up to its \<^verbatim>\<open>return\<close>: the body holds no
  \<^verbatim>\<open>await\<close>, so each call is one atomic step of the single JavaScript thread. The
  \<^verbatim>\<open>.then\<close>/\<^verbatim>\<open>.catch\<close> callbacks run later, when the engine settles the promise:
  that is \<open>settle\<close>.
\<close>

definition getVDS :: "VDS \<Rightarrow> awaited \<times> VDS" where
  "getVDS s =
     (case instanceVDS s of
        Some srv \<Rightarrow> (Instance srv, s)
      | None \<Rightarrow>
          (case promiseVDS s of
             Some p \<Rightarrow> (Promise p, s)
           | None \<Rightarrow>
               (let p = length (promises s)
                in (Promise p, s\<lparr>promiseVDS := Some p, promises := promises s @ [Pending]\<rparr>))))"

text \<open>
  The promise numbered \<open>p\<close> settles with the outcome of \<^verbatim>\<open>createServer\<close>:
  \<open>Inr server\<close> runs the \<^verbatim>\<open>.then\<close> callback, \<open>Inl error\<close> the \<^verbatim>\<open>.catch\<close> callback,
  which rethrows. A promise settles at most once.
\<close>

definition settle :: "nat \<Rightarrow> error + server \<Rightarrow> VDS \<Rightarrow> VDS" where
  "settle p outcome s =
     (if p < length (promises s) \<and> promises s ! p = Pending then
        (case outcome of
           Inr srv \<Rightarrow> s\<lparr>instanceVDS := Some srv, promises := (promises s)[p := Fulfilled srv]\<rparr>
         | Inl e \<Rightarrow> s\<lparr>instanceVDS := None, promises := (promises s)[p := Rejected e]\<rparr>)
      else s)"

definition settled :: "error + server \<Rightarrow> settlement" where
  "settled outcome = (case outcome of Inr srv \<Rightarrow> Fulfilled srv | Inl e \<Rightarrow> Rejected e)"

text \<open>What a caller that awaits \<open>a\<close> sees in state \<open>s\<close>.\<close>

definition observe :: "VDS \<Rightarrow> awaited \<Rightarrow> settlement" where
  "observe s a =
     (case a of
        Instance srv \<Rightarrow> Fulfilled srv
      | Promise p \<Rightarrow> (if p < length (promises s) then promises s ! p else Pending))"

text \<open>
  The public entry points all start with \<^verbatim>\<open>await this.getVDS()\<close>; what they do with the
  engine afterwards (\<^verbatim>\<open>transformIndexHtml\<close>, \<^verbatim>\<open>middlewares\<close>, \<^verbatim>\<open>ssrFixStacktrace\<close>)
  happens once the awaited value is there and does not touch the fields of the class.
\<close>

datatype request = TransformTemplate string | GetMiddleware | ErrorVDS error

fun call :: "request \<Rightarrow> VDS \<Rightarrow> awaited \<times> VDS" where
  "call (TransformTemplate targetURL) s = getVDS s"
| "call GetMiddleware s = getVDS s"
| "call (ErrorVDS e) s = getVDS s"

text \<open>Several requests, one after the other, with no settlement in between.\<close>

fun calls :: "request list \<Rightarrow> VDS \<Rightarrow> awaited list \<times> VDS" where
  "calls [] s = ([], s)"
| "calls (r # rs) s =
     (let (a, s1) = call r s; (as, s2) = calls rs s1 in (a # as, s2))"

text \<open>
  \<^verbatim>\<open>shutdownVDS\<close> is an async function with one \<^verbatim>\<open>await\<close>. A call runs without
  suspension up to its \<^verbatim>\<open>return\<close> at the guard, or up to
  \<^verbatim>\<open>await this.instanceVDS.close()\<close>: there \<^verbatim>\<open>close()\<close> has been called on the live
  engine, the call is suspended, and both fields are still as they were. Anything may run
  before \<^verbatim>\<open>close()\<close> settles. \<open>closedEngines\<close> lists the engines \<^verbatim>\<open>close()\<close> was
  called on, one entry for each call.
\<close>

datatype shutdownCall = Returned | AwaitingClose server

definition shutdownVDS :: "VDS \<Rightarrow> shutdownCall \<times> VDS" where
  "shutdownVDS s =
     (case instanceVDS s of
        None \<Rightarrow> (Returned, s)
      | Some srv \<Rightarrow> (AwaitingClose srv, s\<lparr>closedEngines := closedEngines s @ [srv]\<rparr>))"

text \<open>
  The rest of a suspended call, run once \<^verbatim>\<open>close()\<close> has settled with \<open>tried\<close> (\<open>Inl\<close>
  when it rejects): the \<^verbatim>\<open>catch\<close> only logs, the \<^verbatim>\<open>finally\<close> clears both fields, and
  the call returns.
\<close>

definition resumeShutdownVDS :: "error + unit \<Rightarrow> VDS \<Rightarrow> (error + unit) \<times> VDS" where
  "resumeShutdownVDS tried s =
     (let caught = (case tried of Inl e \<Rightarrow> Inr () | Inr u \<Rightarrow> Inr u)
      in (caught, s\<lparr>instanceVDS := None, promiseVDS := None\<rparr>))"

text \<open>The states of section 4.2 of the specification, read off the two fields.\<close>

definition Uninitialized :: "VDS \<Rightarrow> bool" where
  "Uninitialized s \<longleftrightarrow> instanceVDS s = None \<and> promiseVDS s = None"

definition Initializing :: "VDS \<Rightarrow> bool" where
  "Initializing s \<longleftrightarrow>
     instanceVDS s = None \<and>
     (case promiseVDS s of
        None \<Rightarrow> False
      | Some p \<Rightarrow> p < length (promises s) \<and> promises s ! p = Pending)"

definition Ready :: "VDS \<Rightarrow> bool" where
  "Ready s \<longleftrightarrow> instanceVDS s \<noteq> None"

text \<open>
  Requests interleaved with the settlement of the creation attempt numbered \<open>p\<close>: the
  engine may settle the promise between any two requests.
\<close>

datatype vdsEvent = Request request | Settlement "error + server"

fun interleave :: "nat \<Rightarrow> vdsEvent list \<Rightarrow> VDS \<Rightarrow> awaited list \<times> VDS" where
  "interleave p [] s = ([], s)"
| "interleave p (Request r # events) s =
     (let (a, s1) = call r s; (as, s2) = interleave p events s1 in (a # as, s2))"
| "interleave p (Settlement outcome # events) s = interleave p events (settle p outcome s)"

text \<open>
  Two invariants for the proofs. \<open>attempted p s\<close>: the attempt numbered \<open>p\<close> has been
  started and \<^verbatim>\<open>promiseVDS\<close> points to it; a live instance is the one it was fulfilled
  with. \<open>shares p s a\<close>: the caller holding \<open>a\<close> depends on that attempt only.
\<close>

definition attempted :: "nat \<Rightarrow> VDS \<Rightarrow> bool" where
  "attempted p s \<longleftrightarrow>
     promiseVDS s = Some p \<and> p < length (promises s) \<and>
     (case instanceVDS s of None \<Rightarrow> True | Some srv \<Rightarrow> promises s ! p = Fulfilled srv)"

definition shares :: "nat \<Rightarrow> VDS \<Rightarrow> awaited \<Rightarrow> bool" where
  "shares p s a \<longleftrightarrow>
     (case a of Promise q \<Rightarrow> q = p | Instance srv \<Rightarrow> promises s ! p = Fulfilled srv)"

section \<open>Service: the property store (src/core/Service.ts)\<close>

text \<open>
  Property keys are strings, values are of any type \<open>'v\<close>. The two objects
  \<^verbatim>\<open>validators\<close> and \<^verbatim>\<open>properties\<close> are maps (keys are taken to be own properties).
  A validator returns a boolean or throws. The hooks \<^verbatim>\<open>onSet\<close>, \<^verbatim>\<open>onRemove\<close> and
  \<^verbatim>\<open>onReset\<close> are optional methods of the subclass: each is absent or a function that
  returns or throws; \<open>hookCalls\<close> records every invocation, in order.
\<close>

datatype 'v hookCall = OnSet string 'v | OnRemove string | OnReset

record 'v Service =
  validators :: "string \<rightharpoonup> ('v \<Rightarrow> error + bool)"
  properties :: "string \<rightharpoonup> 'v"
  onSet :: "(string \<Rightarrow> 'v \<Rightarrow> error + unit) option"
  onRemove :: "(string \<Rightarrow> error + unit) option"
  onReset :: "(error + unit) option"
  hookCalls :: "'v hookCall list"

definition validationFailed :: "string \<Rightarrow> error" where
  "validationFailed key =
     Error (''Validation failed for property '' @ [CHR 0x27] @ key @ [CHR 0x27])"

text \<open>\<^verbatim>\<open>this.onSet?.(key, value)\<close>\<close>

definition callOnSet :: "string \<Rightarrow> 'v \<Rightarrow> 'v Service \<Rightarrow> (error + unit) \<times> 'v Service" where
  "callOnSet key val s =
     (case onSet s of
        None \<Rightarrow> (Inr (), s)
      | Some hook \<Rightarrow> (hook key val, s\<lparr>hookCalls := hookCalls s @ [OnSet key val]\<rparr>))"

definition setValue :: "string \<Rightarrow> 'v \<Rightarrow> 'v Service \<Rightarrow> (error + unit) \<times> 'v Service" where
  "setValue key newValue s =
     (case validators s key of
        None \<Rightarrow> callOnSet key newValue (s\<lparr>properties := (properties s)(key \<mapsto> newValue)\<rparr>)
      | Some validator \<Rightarrow>
          (case validator newValue of
             Inl e \<Rightarrow> (Inl e, s)
           | Inr ok \<Rightarrow>
               (if \<not> ok then (Inl (validationFailed key), s)
                else callOnSet key newValue
                       (s\<lparr>properties := (properties s)(key \<mapsto> newValue)\<rparr>))))"

text \<open>\<^verbatim>\<open>this.properties[key] ?? null\<close>: \<open>None\<close> is \<^verbatim>\<open>null\<close>.\<close>

definition getValue :: "'v Service \<Rightarrow> string \<Rightarrow> 'v option" where
  "getValue s key = properties s key"

definition registerValidator ::
  "string \<Rightarrow> ('v \<Rightarrow> error + bool) \<Rightarrow> 'v Service \<Rightarrow> 'v Service" where
  "registerValidator key validator s = s\<lparr>validators := (validators s)(key \<mapsto> validator)\<rparr>"

definition setNewProp :: "string \<Rightarrow> 'v \<Rightarrow> 'v Service \<Rightarrow> (error + unit) \<times> 'v Service" where
  "setNewProp key val s =
     callOnSet key val (s\<lparr>properties := (properties s)(key \<mapsto> val)\<rparr>)"

definition removeProp :: "string \<Rightarrow> 'v Service \<Rightarrow> (error + unit) \<times> 'v Service" where
  "removeProp key s =
     (let s1 = s\<lparr>properties := (properties s)(key := None)\<rparr>
      in case onRemove s1 of
           None \<Rightarrow> (Inr (), s1)
         | Some hook \<Rightarrow> (hook key, s1\<lparr>hookCalls := hookCalls s1 @ [OnRemove key]\<rparr>))"

definition hasProp :: "'v Service \<Rightarrow> string \<Rightarrow> bool" where
  "hasProp s key \<longleftrightarrow> properties s key \<noteq> None"

definition getAllProps :: "'v Service \<Rightarrow> (string \<rightharpoonup> 'v)" where
  "getAllProps s = properties s"

definition resetProps :: "(string \<rightharpoonup> 'v) \<Rightarrow> 'v Service \<Rightarrow> (error + unit) \<times> 'v Service" where
  "resetProps defaultProps s =
     (let s1 = s\<lparr>properties := defaultProps\<rparr>
      in case onReset s1 of
           None \<Rightarrow> (Inr (), s1)
         | Some outcome \<Rightarrow> (outcome, s1\<lparr>hookCalls := hookCalls s1 @ [OnReset]\<rparr>))"

text \<open>
  A sequence of calls on one store. A call that throws leaves the store as the throw left
  it, and the caller goes on with the next call.
\<close>

datatype 'v operation =
    SetValue string 'v
  | SetNewProp string 'v
  | RemoveProp string
  | ResetProps "string \<rightharpoonup> 'v"
  | RegisterValidator string "'v \<Rightarrow> error + bool"

fun perform :: "'v operation \<Rightarrow> 'v Service \<Rightarrow> (error + unit) \<times> 'v Service" where
  "perform (SetValue key val) s = setValue key val s"
| "perform (SetNewProp key val) s = setNewProp key val s"
| "perform (RemoveProp key) s = removeProp key s"
| "perform (ResetProps defaultProps) s = resetProps defaultProps s"
| "perform (RegisterValidator key validator) s = (Inr (), registerValidator key validator s)"

fun performAll :: "'v operation list \<Rightarrow> 'v Service \<Rightarrow> 'v Service" where
  "performAll [] s = s"
| "performAll (operation # rest) s = performAll rest (snd (perform operation s))"

text \<open>A validator for the examples: integers that are not negative.\<close>

definition nonNegative :: "int \<Rightarrow> error + bool" where
  "nonNegative n = Inr (0 \<le> n)"

definition ageStore :: "int Service" where
  "ageStore =
     \<lparr>validators = [''age'' \<mapsto> nonNegative], properties = [''age'' \<mapsto> 30],
      onSet = Some (\<lambda>key val. Inr ()), onRemove = None, onReset = None, hookCalls = []\<rparr>"

section \<open>Controller: route registration (src/unnamed/part_000, part_001)\<close>

text \<open>\<^verbatim>\<open>Environment\<close> of the type declarations, and the string each value is.\<close>

datatype environment = Development | Production

fun environmentName :: "environment \<Rightarrow> string" where
  "environmentName Development = ''development''"
| "environmentName Production = ''production''"

text \<open>
  What a request handler does that can be seen from outside: it answers, or it calls
  \<^verbatim>\<open>next()\<close> (\<open>Next None\<close>) or \<^verbatim>\<open>next(error)\<close> (\<open>Next (Some error)\<close>). A function run for
  a request of type \<open>'req\<close> yields the actions it took, in order, and returns (\<open>Inr\<close>) or
  throws or rejects (\<open>Inl\<close>).
\<close>

datatype action = SendFile string | Respond nat string | Next "error option"

type_synonym 'req endpoint = "'req \<Rightarrow> action list \<times> (error + unit)"

text \<open>
  A \<^verbatim>\<open>Route\<close>; \<open>routeMethod\<close> is its field \<^verbatim>\<open>method\<close>. An optional field is an
  \<open>option\<close>. \<open>shouldRegister\<close>, when present, is
  the outcome of calling and awaiting it. Each entry of \<open>handlers\<close> is a handler or a
  promise of one, given by what awaiting it yields. \<open>'h\<close> is the type of express request
  handlers.
\<close>

record ('req, 'h) Route =
  routeMethod :: string
  path :: string
  errorFn :: "(error \<Rightarrow> 'req endpoint) option"
  validationFn :: "('req \<Rightarrow> error + unit) option"
  shouldRegister :: "(error + bool) option"
  endpointFn :: "'req endpoint"
  handlers :: "(error + 'h) list option"
  envScope :: "environment option"

text \<open>
  What \<^verbatim>\<open>register\<close> binds on the router: the awaited handlers, the synthetic validation
  middleware, and the wrapper around the endpoint function.
\<close>

datatype ('req, 'h) middleware =
    Handler 'h
  | ValidationMiddleware "'req \<Rightarrow> error + unit"
  | EndpointWrapper "'req endpoint" "(error \<Rightarrow> 'req endpoint) option"

text \<open>
  The express router is the list of its layers, in registration order. \<open>'c\<close> is the type
  of view components.
\<close>

datatype ('req, 'h, 'c) layer =
    RouteLayer string string "('req, 'h) middleware list"
  | ViewLayer string 'c
  | FallbackLayer

text \<open>
  The validation middleware:
  \<^verbatim>\<open>try { await validationFn(req); next() } catch (error) { next(error) }\<close>
\<close>

definition runValidation :: "('req \<Rightarrow> error + unit) \<Rightarrow> 'req endpoint" where
  "runValidation validate req =
     (case validate req of
        Inr u \<Rightarrow> ([Next None], Inr ())
      | Inl e \<Rightarrow> ([Next (Some e)], Inr ()))"

text \<open>
  The endpoint wrapper:
  \<^verbatim>\<open>try { await endpointFn(req, res, next) }
  catch (error) { if (errorFn) await errorFn(error, req, res, next); next(error) }\<close>
  A throw of \<^verbatim>\<open>errorFn\<close> leaves the \<^verbatim>\<open>catch\<close> block before \<^verbatim>\<open>next(error)\<close>.
\<close>

definition runEndpointWrapper ::
  "'req endpoint \<Rightarrow> (error \<Rightarrow> 'req endpoint) option \<Rightarrow> 'req endpoint" where
  "runEndpointWrapper endpoint onError req =
     (case endpoint req of
        (done, Inr u) \<Rightarrow> (done, Inr ())
      | (done, Inl e) \<Rightarrow>
          (case onError of
             None \<Rightarrow> (done @ [Next (Some e)], Inr ())
           | Some hook \<Rightarrow>
               (case hook e req of
                  (done', Inl e') \<Rightarrow> (done @ done', Inl e')
                | (done', Inr u) \<Rightarrow> (done @ done' @ [Next (Some e)], Inr ()))))"

text \<open>
  \<^verbatim>\<open>isRequestMethod\<close>. \<open>inRouter\<close> is express's \<^verbatim>\<open>method in Router\<close>, which the
  repository does not define.
\<close>

definition isRequestMethod :: "(string \<Rightarrow> bool) \<Rightarrow> string \<Rightarrow> bool" where
  "isRequestMethod inRouter m \<longleftrightarrow>
     m \<in> set [''get'', ''post'', ''put'', ''patch'', ''delete'', ''options''] \<and> inRouter m"

text \<open>
  \<^verbatim>\<open>await Promise.all(handlers)\<close>: the handlers in order, or the rejection of an entry
  (the first rejected entry in list order stands for the one that rejects first).
\<close>

fun awaitAll :: "(error + 'h) list \<Rightarrow> error + 'h list" where
  "awaitAll [] = Inr []"
| "awaitAll (Inl e # rest) = Inl e"
| "awaitAll (Inr h # rest) =
     (case awaitAll rest of Inl e \<Rightarrow> Inl e | Inr hs \<Rightarrow> Inr (h # hs))"

definition methodNotRecognized :: "string \<Rightarrow> error" where
  "methodNotRecognized m =
     Error (''[Controller]: Method: '' @ m @ '' is not recognized as an HTTP method'')"

text \<open>The chain bound for a route, once its handlers are awaited.\<close>

definition boundChain :: "('req, 'h) Route \<Rightarrow> 'h list \<Rightarrow> ('req, 'h) middleware list" where
  "boundChain route awaitedHandlers =
     (case validationFn route of
        None \<Rightarrow> map Handler awaitedHandlers
      | Some validate \<Rightarrow> ValidationMiddleware validate # map Handler awaitedHandlers)
     @ [EndpointWrapper (endpointFn route) (errorFn route)]"

text \<open>
  The loop of \<^verbatim>\<open>register\<close> over the routes. \<open>nodeEnv\<close> is \<^verbatim>\<open>process.env.NODE_ENV\<close>
  (\<open>None\<close> when the variable is unset). A throw ends the loop and keeps the layers bound
  so far.
\<close>

fun registerRoutes ::
  "(string \<Rightarrow> bool) \<Rightarrow> string option \<Rightarrow> ('req, 'h) Route list \<Rightarrow>
   ('req, 'h, 'c) layer list \<Rightarrow> (error + unit) \<times> ('req, 'h, 'c) layer list" where
  "registerRoutes inRouter nodeEnv [] router = (Inr (), router)"
| "registerRoutes inRouter nodeEnv (route # rest) router =
     (case (case shouldRegister route of None \<Rightarrow> Inr True | Some outcome \<Rightarrow> outcome) of
        Inl e \<Rightarrow> (Inl e, router)
      | Inr wanted \<Rightarrow>
          if \<not> wanted then registerRoutes inRouter nodeEnv rest router
          else if (case envScope route of
                     None \<Rightarrow> False
                   | Some scope \<Rightarrow> Some (environmentName scope) \<noteq> nodeEnv)
          then registerRoutes inRouter nodeEnv rest router
          else if \<not> isRequestMethod inRouter (routeMethod route)
          then (Inl (methodNotRecognized (routeMethod route)), router)
          else
            (case awaitAll (case handlers route of None \<Rightarrow> [] | Some hs \<Rightarrow> hs) of
               Inl e \<Rightarrow> (Inl e, router)
             | Inr awaitedHandlers \<Rightarrow>
                 registerRoutes inRouter nodeEnv rest
                   (router @ [RouteLayer (routeMethod route) (path route)
                                (boundChain route awaitedHandlers)])))"

record ('req, 'h) Controller =
  onRegister :: "(error + unit) option"
  routes :: "('req, 'h) Route list"

definition register ::
  "(string \<Rightarrow> bool) \<Rightarrow> string option \<Rightarrow> ('req, 'h) Controller \<Rightarrow>
   ('req, 'h, 'c) layer list \<Rightarrow> (error + unit) \<times> ('req, 'h, 'c) layer list" where
  "register inRouter nodeEnv controller router =
     (case onRegister controller of
        Some (Inl e) \<Rightarrow> (Inl e, router)
      | _ \<Rightarrow> registerRoutes inRouter nodeEnv (routes controller) router)"

section \<open>CoreController: the two serving routes (src/core/CoreController.ts)\<close>

text \<open>
  What the routes of \<^verbatim>\<open>CoreController\<close> use from outside the repository:
  \<^verbatim>\<open>serveStatic(productionDist)\<close>; the logging middleware of the development route;
  what awaiting \<^verbatim>\<open>this.VDS.getMiddleware()\<close> yields (the call is made in the
  constructor, whatever the environment); the error \<^verbatim>\<open>res.sendFile\<close> hands to its
  callback, if any; and what awaiting \<^verbatim>\<open>this.VDS.transformTemplate(originalUrl)\<close>
  yields.
\<close>

record ('req, 'h) serving =
  serveStatic :: 'h
  logRequest :: 'h
  vdsMiddleware :: "error + 'h"
  sendFile :: "'req \<Rightarrow> error option"
  transformTemplate :: "'req \<Rightarrow> error + string"
  productionEntryFile :: string

definition productionRoute :: "('req, 'h) serving \<Rightarrow> ('req, 'h) Route" where
  "productionRoute x =
     \<lparr>routeMethod = ''get'', path = ''*'',
      errorFn = Some (\<lambda>e req. ([], Inr ())),
      validationFn = None,
      shouldRegister = None,
      endpointFn = (\<lambda>req. case sendFile x req of
                             None \<Rightarrow> ([SendFile (productionEntryFile x)], Inr ())
                           | Some e \<Rightarrow> ([Next (Some e)], Inr ())),
      handlers = Some [Inr (serveStatic x)],
      envScope = Some Production\<rparr>"

definition developmentRoute :: "('req, 'h) serving \<Rightarrow> ('req, 'h) Route" where
  "developmentRoute x =
     \<lparr>routeMethod = ''get'', path = ''*'',
      errorFn = None,
      validationFn = None,
      shouldRegister = None,
      endpointFn = (\<lambda>req. case transformTemplate x req of
                             Inr template \<Rightarrow> ([Respond 200 template], Inr ())
                           | Inl e \<Rightarrow> ([Next (Some e)], Inr ())),
      handlers = Some [Inr (logRequest x), vdsMiddleware x],
      envScope = Some Development\<rparr>"

definition routesInternal :: "('req, 'h) serving \<Rightarrow> ('req, 'h) Route list" where
  "routesInternal x = [productionRoute x, developmentRoute x]"

definition CoreController :: "('req, 'h) serving \<Rightarrow> ('req, 'h) Controller" where
  "CoreController x = \<lparr>onRegister = None, routes = routesInternal x\<rparr>"

section \<open>Application: the environment (src/core/Application.ts)\<close>

text \<open>\<^verbatim>\<open>process.env.NODE_ENV ?? 'development'\<close>\<close>

definition getEnv :: "string option \<Rightarrow> string" where
  "getEnv nodeEnv = (case nodeEnv of None \<Rightarrow> ''development'' | Some name \<Rightarrow> name)"

section \<open>AppRouter: initialisation (src/unnamed/part_000)\<close>

record ('req, 'h, 'c) AppRouter =
  expressRouter :: "('req, 'h, 'c) layer list"
  coreController :: "('req, 'h) Controller"
  controllers :: "('req, 'h) Controller list"
  viewMap :: "(string \<times> 'c) list"

text \<open>The loop inside the \<^verbatim>\<open>try\<close> of \<^verbatim>\<open>registerControllers\<close>.\<close>

fun registerEach ::
  "(string \<Rightarrow> bool) \<Rightarrow> string option \<Rightarrow> ('req, 'h) Controller list \<Rightarrow>
   ('req, 'h, 'c) layer list \<Rightarrow> (error + unit) \<times> ('req, 'h, 'c) layer list" where
  "registerEach inRouter nodeEnv [] router = (Inr (), router)"
| "registerEach inRouter nodeEnv (controller # rest) router =
     (case register inRouter nodeEnv controller router of
        (Inl e, router') \<Rightarrow> (Inl e, router')
      | (Inr u, router') \<Rightarrow> registerEach inRouter nodeEnv rest router')"

text \<open>The \<^verbatim>\<open>catch\<close> of each phase only logs.\<close>

definition registerControllers ::
  "(string \<Rightarrow> bool) \<Rightarrow> string option \<Rightarrow> ('req, 'h, 'c) AppRouter \<Rightarrow> ('req, 'h, 'c) AppRouter" where
  "registerControllers inRouter nodeEnv a =
     a\<lparr>expressRouter := snd (registerEach inRouter nodeEnv (controllers a) (expressRouter a))\<rparr>"

definition registerServing ::
  "(string \<Rightarrow> bool) \<Rightarrow> string option \<Rightarrow> ('req, 'h, 'c) AppRouter \<Rightarrow> ('req, 'h, 'c) AppRouter" where
  "registerServing inRouter nodeEnv a =
     a\<lparr>expressRouter := snd (register inRouter nodeEnv (coreController a) (expressRouter a))\<rparr>"

definition registerViews :: "string option \<Rightarrow> ('req, 'h, 'c) AppRouter \<Rightarrow> ('req, 'h, 'c) AppRouter" where
  "registerViews nodeEnv a =
     (if nodeEnv = Some ''development'' then a
      else a\<lparr>expressRouter := expressRouter a @ map (\<lambda>(viewPath, component). ViewLayer viewPath component) (viewMap a)\<rparr>)"

definition registerFallback :: "('req, 'h, 'c) AppRouter \<Rightarrow> ('req, 'h, 'c) AppRouter" where
  "registerFallback a = a\<lparr>expressRouter := expressRouter a @ [FallbackLayer]\<rparr>"

definition initialize ::
  "(string \<Rightarrow> bool) \<Rightarrow> string option \<Rightarrow> ('req, 'h, 'c) AppRouter \<Rightarrow> ('req, 'h, 'c) AppRouter" where
  "initialize inRouter nodeEnv a =
     registerFallback
       (registerViews nodeEnv
          (registerServing inRouter nodeEnv
             (registerControllers inRouter nodeEnv a)))"

section \<open>Shutdown: the handlers of the process (src/unnamed/part_000, src/core/VDS.ts)\<close>

text \<open>
  What has happened so far in the process. \<open>ShutdownVDS i\<close> is a call of
  \<^verbatim>\<open>shutdownVDS\<close> that found \<^verbatim>\<open>instanceVDS\<close> to be \<open>i\<close>: with \<open>Some srv\<close> the call
  has called \<^verbatim>\<open>close()\<close> on the engine \<open>srv\<close>.
\<close>

datatype event =
    ListenerCloseCalled
  | ListenerClosed "error option"
  | ShutdownVDS "server option"
  | Exit nat

text \<open>
  The three places that call \<^verbatim>\<open>shutdownVDS\<close>: the \<^verbatim>\<open>exit\<close> and \<^verbatim>\<open>SIGINT\<close> listeners
  of the \<^verbatim>\<open>VDS\<close> constructor, and the callback the router's handler gives to
  \<^verbatim>\<open>server.close\<close>.
\<close>

datatype caller = ExitListener | SigintListener | RouterCallback

text \<open>
  The part of the process the shutdown code touches: the \<^verbatim>\<open>VDS\<close> of the core
  controller; the flag \<^verbatim>\<open>shuttingDown\<close> of the router; whether \<^verbatim>\<open>server.close\<close> has
  been called and its callback is still to come; the calls of \<^verbatim>\<open>shutdownVDS\<close> that
  are suspended at \<^verbatim>\<open>await close()\<close>, oldest first, each by its caller; the events so
  far; and the exit code once \<^verbatim>\<open>process.exit\<close> was called.
\<close>

record Process =
  devServer :: VDS
  shuttingDown :: bool
  listenerClosing :: bool
  suspended :: "caller list"
  trace :: "event list"
  exitCode :: "nat option"

text \<open>
  The listener the \<^verbatim>\<open>VDS\<close> constructor puts on \<^verbatim>\<open>exit\<close>:
  \<^verbatim>\<open>() => this.shutdownVDS().catch(() => { })\<close>
\<close>

definition vdsExitListener :: "Process \<Rightarrow> Process" where
  "vdsExitListener p =
     (let (c, v) = shutdownVDS (devServer p)
      in p\<lparr>devServer := v,
            suspended := (case c of
                            Returned \<Rightarrow> suspended p
                          | AwaitingClose srv \<Rightarrow> suspended p @ [ExitListener]),
            trace := trace p @ [ShutdownVDS (instanceVDS (devServer p))]\<rparr>)"

text \<open>
  \<^verbatim>\<open>process.exit(code)\<close>: the \<^verbatim>\<open>exit\<close> listeners run, then the process is gone and
  nothing after the call runs.
\<close>

definition processExit :: "nat \<Rightarrow> Process \<Rightarrow> Process" where
  "processExit code p =
     (let p1 = vdsExitListener p
      in p1\<lparr>trace := trace p1 @ [Exit code], exitCode := Some code\<rparr>)"

text \<open>
  What a caller does once its call of \<^verbatim>\<open>shutdownVDS\<close> has returned (\<open>Inr\<close>) or
  rejected (\<open>Inl\<close>). The \<^verbatim>\<open>SIGINT\<close> listener is
  \<^verbatim>\<open>() => this.shutdownVDS().catch(() => process.exit(1))\<close>; the router's callback goes
  on to \<^verbatim>\<open>process.exit(0)\<close>, or to \<^verbatim>\<open>process.exit(1)\<close> in its \<^verbatim>\<open>catch\<close>.
\<close>

fun returnTo :: "caller \<Rightarrow> error + unit \<Rightarrow> Process \<Rightarrow> Process" where
  "returnTo ExitListener outcome p = p"
| "returnTo SigintListener outcome p =
     (case outcome of Inl e \<Rightarrow> processExit 1 p | Inr u \<Rightarrow> p)"
| "returnTo RouterCallback outcome p =
     (case outcome of Inl shutdownError \<Rightarrow> processExit 1 p | Inr u \<Rightarrow> processExit 0 p)"

text \<open>
  A call of \<^verbatim>\<open>shutdownVDS\<close> by \<open>who\<close>: it returns at the guard and the caller goes on,
  or it is suspended until \<^verbatim>\<open>close()\<close> settles.
\<close>

definition callShutdownVDS :: "caller \<Rightarrow> Process \<Rightarrow> Process" where
  "callShutdownVDS who p =
     (let (c, v) = shutdownVDS (devServer p);
          p1 = p\<lparr>devServer := v, trace := trace p @ [ShutdownVDS (instanceVDS (devServer p))]\<rparr>
      in case c of
           Returned \<Rightarrow> returnTo who (Inr ()) p1
         | AwaitingClose srv \<Rightarrow> p1\<lparr>suspended := suspended p1 @ [who]\<rparr>)"

definition vdsSigintListener :: "Process \<Rightarrow> Process" where
  "vdsSigintListener p = callShutdownVDS SigintListener p"

text \<open>
  The handler \<^verbatim>\<open>handleShutdown\<close> returns: the guard on \<^verbatim>\<open>shuttingDown\<close>, then
  \<^verbatim>\<open>server.close(callback)\<close>.
\<close>

definition shutdownHandler :: "Process \<Rightarrow> Process" where
  "shutdownHandler p =
     (if shuttingDown p then p
      else p\<lparr>shuttingDown := True, listenerClosing := True,
             trace := trace p @ [ListenerCloseCalled]\<rparr>)"

text \<open>
  The callback, run when the listener is closed; \<open>listenerError\<close> is what
  \<^verbatim>\<open>server.close\<close> hands to it. \<open>nodeEnv\<close> is \<^verbatim>\<open>process.env.NODE_ENV\<close>.
\<close>

definition listenerCloseCallback :: "string option \<Rightarrow> error option \<Rightarrow> Process \<Rightarrow> Process" where
  "listenerCloseCallback nodeEnv listenerError p =
     (let p1 = p\<lparr>listenerClosing := False, trace := trace p @ [ListenerClosed listenerError]\<rparr>
      in case listenerError of
           Some e \<Rightarrow> processExit 1 p1
         | None \<Rightarrow>
             if nodeEnv = Some ''development'' then callShutdownVDS RouterCallback p1
             else processExit 0 p1)"

text \<open>
  A signal runs its listeners in the order they were added. The \<^verbatim>\<open>VDS\<close> constructor runs
  inside the constructor of \<^verbatim>\<open>Application\<close> and adds its \<^verbatim>\<open>SIGINT\<close> listener there;
  \<^verbatim>\<open>Application.start\<close> adds the router's handler to \<^verbatim>\<open>SIGINT\<close> and \<^verbatim>\<open>SIGTERM\<close>
  later.
\<close>

datatype signal = SIGINT | SIGTERM

fun deliver :: "signal \<Rightarrow> Process \<Rightarrow> Process" where
  "deliver SIGINT p =
     (let p1 = vdsSigintListener p
      in if exitCode p1 \<noteq> None then p1 else shutdownHandler p1)"
| "deliver SIGTERM p = shutdownHandler p"

text \<open>
  What can happen to the process, one thing at a time: a signal arrives; the
  \<^verbatim>\<open>close()\<close> of the engine settles, which resumes the oldest suspended call of
  \<^verbatim>\<open>shutdownVDS\<close>; the listener is closed, which runs the callback. Nothing runs once
  the process has exited.
\<close>

datatype occurrence =
    Signal signal
  | EngineCloseSettled "error + unit"
  | ListenerCloseSettled "error option"

fun occur :: "string option \<Rightarrow> occurrence \<Rightarrow> Process \<Rightarrow> Process" where
  "occur nodeEnv (Signal sig) p = (if exitCode p \<noteq> None then p else deliver sig p)"
| "occur nodeEnv (EngineCloseSettled tried) p =
     (if exitCode p \<noteq> None then p
      else case suspended p of
             [] \<Rightarrow> p
           | who # rest \<Rightarrow>
               (let (outcome, v) = resumeShutdownVDS tried (devServer p)
                in returnTo who outcome (p\<lparr>devServer := v, suspended := rest\<rparr>)))"
| "occur nodeEnv (ListenerCloseSettled listenerError) p =
     (if exitCode p \<noteq> None \<or> \<not> listenerClosing p then p
      else listenerCloseCallback nodeEnv listenerError p)"

fun runProcess :: "string option \<Rightarrow> occurrence list \<Rightarrow> Process \<Rightarrow> Process" where
  "runProcess nodeEnv [] p = p"
| "runProcess nodeEnv (x # xs) p = runProcess nodeEnv xs (occur nodeEnv x p)"

text \<open>
  A started process: the constructor of \<^verbatim>\<open>CoreController\<close> has called
  \<^verbatim>\<open>getMiddleware\<close>, and \<^verbatim>\<open>createServer\<close> has settled with \<open>outcome\<close>.
\<close>

definition started :: "error + server \<Rightarrow> Process" where
  "started outcome =
     \<lparr>devServer = settle 0 outcome (snd (call GetMiddleware newVDS)),
      shuttingDown = False, listenerClosing = False, suspended = [], trace = [],
      exitCode = None\<rparr>"

section \<open>Running a bound middleware\<close>

text \<open>
  How express runs one function of a bound chain. \<open>runHandler\<close> gives what a plain
  request handler does; the two synthetic functions are the ones defined above.
\<close>

fun runBound :: "('h \<Rightarrow> 'req endpoint) \<Rightarrow> ('req, 'h) middleware \<Rightarrow> 'req endpoint" where
  "runBound runHandler (Handler h) = runHandler h"
| "runBound runHandler (ValidationMiddleware validate) = runValidation validate"
| "runBound runHandler (EndpointWrapper endpoint onError) = runEndpointWrapper endpoint onError"

section \<open>Concrete inputs for the examples\<close>

text \<open>The first creation attempt has failed.\<close>

definition failedOnce :: VDS where
  "failedOnce = settle 0 (Inl (Error ''createServer failed'')) (snd (getVDS newVDS))"

text \<open>The first creation attempt has succeeded with engine 7.\<close>

definition liveVDS :: VDS where
  "liveVDS = settle 0 (Inr 7) (snd (getVDS newVDS))"

text \<open>An express \<^verbatim>\<open>Router\<close> that has every method name as a key.\<close>

definition inExpressRouter :: "string \<Rightarrow> bool" where
  "inExpressRouter m \<longleftrightarrow> True"

text \<open>Requests and plain handlers are numbered; a plain handler calls \<^verbatim>\<open>next()\<close>.\<close>

definition passOn :: "nat \<Rightarrow> nat endpoint" where
  "passOn h req = ([Next None], Inr ())"

definition respondOk :: "nat endpoint" where
  "respondOk req = ([Respond 200 ''ok''], Inr ())"

definition throwingEndpoint :: "nat endpoint" where
  "throwingEndpoint req = ([], Inl (Error ''endpoint failed''))"

definition loggingErrorFn :: "error \<Rightarrow> nat endpoint" where
  "loggingErrorFn e req = ([], Inr ())"

definition throwingErrorFn :: "error \<Rightarrow> nat endpoint" where
  "throwingErrorFn e req = ([], Inl (Error ''errorFn failed''))"

definition plainRoute :: "string \<Rightarrow> string \<Rightarrow> (nat, nat) Route" where
  "plainRoute m p =
     \<lparr>routeMethod = m, path = p, errorFn = None, validationFn = None, shouldRegister = None,
      endpointFn = respondOk, handlers = None, envScope = None\<rparr>"

definition loggedRoute :: "(nat, nat) Route" where
  "loggedRoute =
     (plainRoute ''get'' ''/logged'')
       \<lparr>endpointFn := throwingEndpoint, errorFn := Some loggingErrorFn\<rparr>"

definition brokenHookRoute :: "(nat, nat) Route" where
  "brokenHookRoute =
     (plainRoute ''get'' ''/boom'')
       \<lparr>endpointFn := throwingEndpoint, errorFn := Some throwingErrorFn\<rparr>"

definition sampleServing :: "(nat, nat) serving" where
  "sampleServing =
     \<lparr>serveStatic = 0, logRequest = 1, vdsMiddleware = Inr 2, sendFile = (\<lambda>req. None),
      transformTemplate = (\<lambda>req. Inr ''<html>''), productionEntryFile = ''dist/index.html''\<rparr>"

text \<open>Three controllers; the second one has a route with an unknown method.\<close>

definition sampleControllers :: "(nat, nat) Controller list" where
  "sampleControllers =
     [\<lparr>onRegister = None, routes = [plainRoute ''get'' ''/a'']\<rparr>,
      \<lparr>onRegister = None, routes = [plainRoute ''get'' ''/b1'', plainRoute ''fetch'' ''/b2'']\<rparr>,
      \<lparr>onRegister = None, routes = [plainRoute ''get'' ''/c'']\<rparr>]"

definition sampleRouter :: "(nat, nat, nat) AppRouter" where
  "sampleRouter =
     \<lparr>expressRouter = [], coreController = CoreController sampleServing,
      controllers = sampleControllers, viewMap = [(''/'', 0), (''/test'', 1)]\<rparr>"

section \<open>VDS: creation\<close>

lemma call_getVDS: "call r s = getVDS s"
  by (cases r) simp_all

lemma calls_shared:
  "instanceVDS s = None \<Longrightarrow> promiseVDS s = Some p \<Longrightarrow>
   calls rs s = (replicate (length rs) (Promise p), s)"
  by (induction rs) (simp_all add: call_getVDS getVDS_def)

lemma calls_first:
  assumes "Uninitialized s" and "rs \<noteq> []"
  shows "calls rs s =
     (replicate (length rs) (Promise (length (promises s))),
      s\<lparr>promiseVDS := Some (length (promises s)), promises := promises s @ [Pending]\<rparr>)"
proof (cases rs)
  case Nil
  with assms show ?thesis by simp
next
  case (Cons r rs')
  let ?s1 = "s\<lparr>promiseVDS := Some (length (promises s)), promises := promises s @ [Pending]\<rparr>"
  from assms(1) have g: "getVDS s = (Promise (length (promises s)), ?s1)"
    by (simp add: Uninitialized_def getVDS_def Let_def)
  have "calls rs' ?s1 = (replicate (length rs') (Promise (length (promises s))), ?s1)"
    using assms(1) by (intro calls_shared) (simp_all add: Uninitialized_def)
  with g Cons show ?thesis by (simp add: call_getVDS)
qed

text \<open>
  Claim C1 (single-flight creation). Take a \<^verbatim>\<open>VDS\<close> that is uninitialised and any
  number (at least one) of requests through \<^verbatim>\<open>transformTemplate\<close>,
  \<^verbatim>\<open>getMiddleware\<close> or \<^verbatim>\<open>errorVDS\<close> that arrive before the creation settles. Then
  \<^verbatim>\<open>createServer\<close> is called exactly once, every caller awaits the same promise, and
  once that promise settles every caller sees the same thing: the one instance, or the
  one failure.
\<close>

theorem single_flight_creation:
  assumes "Uninitialized s" and "rs \<noteq> []"
  shows "createCalls (snd (calls rs s)) = createCalls s + 1
       \<and> fst (calls rs s) = replicate (length rs) (Promise (createCalls s))
       \<and> Initializing (snd (calls rs s))
       \<and> map (observe (settle (createCalls s) outcome (snd (calls rs s)))) (fst (calls rs s))
           = replicate (length rs) (settled outcome)"
  using calls_first [OF assms] assms(1)
  by (cases outcome)
     (simp_all add: Uninitialized_def createCalls_def Initializing_def settle_def observe_def
        settled_def map_replicate_const)

theorem single_flight_creation_witness:
  "Uninitialized newVDS
   \<and> [TransformTemplate ''/x'', GetMiddleware, TransformTemplate ''/y''] \<noteq> []
   \<and> createCalls (snd (calls [TransformTemplate ''/x'', GetMiddleware, TransformTemplate ''/y''] newVDS)) = 1
   \<and> fst (calls [TransformTemplate ''/x'', GetMiddleware, TransformTemplate ''/y''] newVDS)
        = [Promise 0, Promise 0, Promise 0]
   \<and> map (observe (settle 0 (Inr 7)
              (snd (calls [TransformTemplate ''/x'', GetMiddleware, TransformTemplate ''/y''] newVDS))))
          (fst (calls [TransformTemplate ''/x'', GetMiddleware, TransformTemplate ''/y''] newVDS))
        = [Fulfilled 7, Fulfilled 7, Fulfilled 7]"
proof -
  have h1: "Uninitialized newVDS"
    by (simp add: Uninitialized_def newVDS_def)
  have h2: "[TransformTemplate ''/x'', GetMiddleware, TransformTemplate ''/y''] \<noteq> []"
    by simp
  have c: "createCalls newVDS = 0"
    by (simp add: createCalls_def newVDS_def)
  from single_flight_creation [OF h1 h2, of "Inr 7"] h1 show ?thesis
    unfolding c by (auto simp add: settled_def simp del: calls.simps)
qed

lemma attempted_call:
  assumes "attempted p s"
  shows "snd (call r s) = s \<and> shares p s (fst (call r s))"
  using assms
  by (auto simp add: attempted_def shares_def call_getVDS getVDS_def split: option.splits)

lemma attempted_settle:
  assumes "attempted p s"
  shows "attempted p (settle p outcome s)
       \<and> length (promises (settle p outcome s)) = length (promises s)
       \<and> (promises s ! p \<noteq> Pending \<longrightarrow> settle p outcome s = s)"
  using assms
  by (auto simp add: attempted_def settle_def split: option.splits sum.splits)

lemma shares_observe:
  assumes "attempted p s" and "shares p s a"
  shows "observe s a = promises s ! p"
  using assms by (cases a) (auto simp add: attempted_def shares_def observe_def)

lemma interleave_attempted:
  assumes "attempted p s"
  shows "attempted p (snd (interleave p events s))
       \<and> length (promises (snd (interleave p events s))) = length (promises s)
       \<and> (promises s ! p \<noteq> Pending \<longrightarrow>
            promises (snd (interleave p events s)) ! p = promises s ! p)
       \<and> (\<forall>a \<in> set (fst (interleave p events s)). shares p (snd (interleave p events s)) a)"
  using assms
proof (induction events arbitrary: s)
  case Nil
  then show ?case by simp
next
  case (Cons ev events)
  show ?case
  proof (cases ev)
    case (Request r)
    from attempted_call [OF Cons.prems, of r]
    have c: "snd (call r s) = s" and o: "shares p s (fst (call r s))"
      by simp_all
    note ih = Cons.IH [OF Cons.prems]
    have keep: "shares p (snd (interleave p events s)) (fst (call r s))"
    proof (cases "fst (call r s)")
      case (Instance srv)
      with o have "promises s ! p = Fulfilled srv" by (simp add: shares_def)
      with ih have "promises (snd (interleave p events s)) ! p = Fulfilled srv" by simp
      with Instance show ?thesis by (simp add: shares_def)
    next
      case (Promise q)
      with o show ?thesis by (simp add: shares_def)
    qed
    have e: "interleave p (ev # events) s
        = (fst (call r s) # fst (interleave p events s), snd (interleave p events s))"
      using c by (cases "call r s") (simp add: Request split: prod.split)
    from ih keep show ?thesis unfolding e by simp
  next
    case (Settlement outcome)
    from attempted_settle [OF Cons.prems, of outcome]
    have a: "attempted p (settle p outcome s)"
      and l: "length (promises (settle p outcome s)) = length (promises s)"
      and k: "promises s ! p \<noteq> Pending \<longrightarrow> settle p outcome s = s"
      by simp_all
    from Cons.IH [OF a] l k show ?thesis by (auto simp add: Settlement)
  qed
qed

text \<open>
  The same holds when the settlement falls between the requests, at any place: as soon
  as there is one request, \<^verbatim>\<open>createServer\<close> has been called exactly once, and in the
  end every caller sees what the one attempt came to.
\<close>

lemma single_flight_interleaved:
  assumes "Uninitialized s"
  shows "createCalls (snd (interleave (createCalls s) events s))
           = (if \<exists>r. Request r \<in> set events then createCalls s + 1 else createCalls s)
       \<and> (\<forall>a \<in> set (fst (interleave (createCalls s) events s)).
            observe (snd (interleave (createCalls s) events s)) a
              = observe (snd (interleave (createCalls s) events s)) (Promise (createCalls s)))"
proof (induction events)
  case Nil
  then show ?case by simp
next
  case (Cons ev events)
  let ?p = "createCalls s"
  show ?case
  proof (cases ev)
    case (Request r)
    let ?s1 = "s\<lparr>promiseVDS := Some ?p, promises := promises s @ [Pending]\<rparr>"
    from assms have g: "call r s = (Promise ?p, ?s1)"
      by (simp add: call_getVDS Uninitialized_def getVDS_def Let_def createCalls_def)
    from assms have a: "attempted ?p ?s1"
      by (simp add: attempted_def Uninitialized_def createCalls_def)
    note t = interleave_attempted [OF a, of events]
    let ?s2 = "snd (interleave ?p events ?s1)"
    have e: "interleave ?p (ev # events) s = (Promise ?p # fst (interleave ?p events ?s1), ?s2)"
      by (simp add: Request g split: prod.split)
    from t have at: "attempted ?p ?s2" by simp
    have "\<forall>a \<in> set (fst (interleave ?p events ?s1)). observe ?s2 a = observe ?s2 (Promise ?p)"
    proof
      fix a assume "a \<in> set (fst (interleave ?p events ?s1))"
      with t have "shares ?p ?s2 a" by simp
      from shares_observe [OF at this] at show "observe ?s2 a = observe ?s2 (Promise ?p)"
        by (simp add: observe_def attempted_def)
    qed
    moreover from t have "createCalls ?s2 = createCalls s + 1"
      by (simp add: createCalls_def)
    ultimately show ?thesis unfolding e using Request by auto
  next
    case (Settlement outcome)
    have "settle ?p outcome s = s"
      by (simp add: settle_def createCalls_def)
    with Cons.IH show ?thesis by (simp add: Settlement)
  qed
qed

text \<open>
  Claim C2 (no permanent poisoning) does not hold of the code. The \<^verbatim>\<open>.catch\<close> callback
  sets \<^verbatim>\<open>instanceVDS\<close> to \<^verbatim>\<open>null\<close> but leaves \<^verbatim>\<open>promiseVDS\<close> pointing to the
  rejected promise. After a failed creation the state is therefore not uninitialised, the
  next \<^verbatim>\<open>getVDS\<close> hands out the same rejected promise, and \<^verbatim>\<open>createServer\<close> is not
  called again.
\<close>

theorem creation_failure_keeps_rejected_promise:
  "promiseVDS failedOnce = Some 0
   \<and> \<not> Uninitialized failedOnce
   \<and> getVDS failedOnce = (Promise 0, failedOnce)
   \<and> createCalls (snd (getVDS failedOnce)) = 1
   \<and> observe (snd (getVDS failedOnce)) (fst (getVDS failedOnce))
        = Rejected (Error ''createServer failed'')"
  by (simp add: failedOnce_def getVDS_def settle_def newVDS_def Let_def Uninitialized_def
        createCalls_def observe_def)

text \<open>The same from any uninitialised state and for any failure.\<close>

lemma creation_failure_poisons:
  assumes "Uninitialized s"
  shows "promiseVDS (settle (createCalls s) (Inl e) (snd (getVDS s))) = Some (createCalls s)
       \<and> fst (getVDS (settle (createCalls s) (Inl e) (snd (getVDS s)))) = Promise (createCalls s)
       \<and> createCalls (snd (getVDS (settle (createCalls s) (Inl e) (snd (getVDS s)))))
           = createCalls s + 1"
  using assms
  by (simp add: Let_def createCalls_def settle_def Uninitialized_def getVDS_def)

text \<open>Nor does \<^verbatim>\<open>shutdownVDS\<close> clear the rejected promise: it returns at its guard.\<close>

lemma shutdown_keeps_rejected_promise:
  "shutdownVDS failedOnce = (Returned, failedOnce)"
  by (simp add: failedOnce_def getVDS_def settle_def newVDS_def Let_def shutdownVDS_def)

section \<open>VDS: shutdown\<close>

text \<open>With no live instance a call returns at the guard and changes nothing.\<close>

lemma shutdownVDS_guard:
  assumes "instanceVDS s = None"
  shows "shutdownVDS s = (Returned, s)"
  using assms by (simp add: shutdownVDS_def)

text \<open>
  With a live instance a call calls \<^verbatim>\<open>close()\<close> on it, and when \<^verbatim>\<open>close()\<close> has
  settled, resolved or rejected, the call clears both fields and returns normally.
\<close>

lemma shutdownVDS_live:
  assumes "instanceVDS s = Some srv"
  shows "shutdownVDS s = (AwaitingClose srv, s\<lparr>closedEngines := closedEngines s @ [srv]\<rparr>)"
  using assms by (simp add: shutdownVDS_def)

lemma resumeShutdownVDS_clears:
  "fst (resumeShutdownVDS tried s) = Inr ()
   \<and> instanceVDS (snd (resumeShutdownVDS tried s)) = None
   \<and> promiseVDS (snd (resumeShutdownVDS tried s)) = None
   \<and> closedEngines (snd (resumeShutdownVDS tried s)) = closedEngines s"
  by (simp add: resumeShutdownVDS_def split: sum.split)

text \<open>
  A call that starts when an earlier call has run to its end, with nothing else in
  between, returns at the guard.
\<close>

lemma shutdown_after_finished_shutdown:
  "shutdownVDS (snd (resumeShutdownVDS tried s)) = (Returned, snd (resumeShutdownVDS tried s))"
  by (simp add: resumeShutdownVDS_def shutdownVDS_def)

text \<open>
  Claim C3 (shutdown idempotence) does not hold of the code. Two calls of
  \<^verbatim>\<open>shutdownVDS\<close> in succession, with no request for the instance in between, are not
  always the same as one. First, take a \<^verbatim>\<open>VDS\<close> whose creation is in flight. The first
  call returns at the guard and leaves \<^verbatim>\<open>promiseVDS\<close> in place. The creation then
  succeeds and its \<^verbatim>\<open>.then\<close> callback stores engine 7. The second call finds a live
  instance, calls \<^verbatim>\<open>close()\<close> on it and, once that has settled, clears both fields:
  it is not a no-op. After one call the engine is live and was never closed; after two it
  is closed and gone. Second, take a \<^verbatim>\<open>VDS\<close> with a live engine and a second call that
  starts before the \<^verbatim>\<open>close()\<close> of the first has settled: both fields are cleared only
  in the \<^verbatim>\<open>finally\<close> block, so the second call passes the guard and calls
  \<^verbatim>\<open>close()\<close> on the same engine again.
\<close>

theorem second_shutdown_closes_engine:
  "shutdownVDS (snd (getVDS newVDS)) = (Returned, snd (getVDS newVDS))
   \<and> settle 0 (Inr 7) (snd (shutdownVDS (snd (getVDS newVDS))))
       = \<lparr>promiseVDS = Some 0, instanceVDS = Some 7, promises = [Fulfilled 7],
          closedEngines = []\<rparr>
   \<and> shutdownVDS (settle 0 (Inr 7) (snd (shutdownVDS (snd (getVDS newVDS)))))
       = (AwaitingClose 7,
          \<lparr>promiseVDS = Some 0, instanceVDS = Some 7, promises = [Fulfilled 7],
           closedEngines = [7]\<rparr>)
   \<and> resumeShutdownVDS (Inr ())
        (snd (shutdownVDS (settle 0 (Inr 7) (snd (shutdownVDS (snd (getVDS newVDS)))))))
       = (Inr (),
          \<lparr>promiseVDS = None, instanceVDS = None, promises = [Fulfilled 7],
           closedEngines = [7]\<rparr>)
   \<and> shutdownVDS liveVDS = (AwaitingClose 7, liveVDS\<lparr>closedEngines := [7]\<rparr>)
   \<and> shutdownVDS (snd (shutdownVDS liveVDS))
       = (AwaitingClose 7, liveVDS\<lparr>closedEngines := [7, 7]\<rparr>)"
  by (simp add: liveVDS_def getVDS_def settle_def newVDS_def Let_def shutdownVDS_def
        resumeShutdownVDS_def)

text \<open>
  Claim C4 (shutdown before ready) does not hold of the code. \<^verbatim>\<open>shutdownVDS\<close> during
  initialisation returns at its guard and changes nothing: the state is still
  initialising, not uninitialised, and the creation goes on. When it succeeds, the
  \<^verbatim>\<open>.then\<close> callback stores the engine, so a live instance comes into existence with
  no new request, and nothing has closed or will close it.
\<close>

theorem shutdown_while_initializing_leaks_engine:
  "Initializing (snd (getVDS newVDS))
   \<and> shutdownVDS (snd (getVDS newVDS)) = (Returned, snd (getVDS newVDS))
   \<and> \<not> Uninitialized (snd (shutdownVDS (snd (getVDS newVDS))))
   \<and> Initializing (snd (shutdownVDS (snd (getVDS newVDS))))
   \<and> instanceVDS (settle 0 (Inr 7) (snd (shutdownVDS (snd (getVDS newVDS))))) = Some 7
   \<and> closedEngines (settle 0 (Inr 7) (snd (shutdownVDS (snd (getVDS newVDS))))) = []"
  by (simp add: getVDS_def settle_def newVDS_def Let_def shutdownVDS_def Initializing_def
        Uninitialized_def)

text \<open>The same from any state with a creation in flight, for any engine.\<close>

lemma shutdown_does_not_cancel_creation:
  assumes "Initializing s" and "promiseVDS s = Some p"
  shows "shutdownVDS s = (Returned, s)
       \<and> instanceVDS (settle p (Inr srv) (snd (shutdownVDS s))) = Some srv"
  using assms by (simp add: Initializing_def shutdownVDS_def settle_def)

section \<open>Service: validated writes\<close>

text \<open>
  Claim C7 (set atomicity). For a key with a registered validator: when the validator
  rejects the value, \<^verbatim>\<open>setValue\<close> throws the validation error and leaves the store as
  it was, so \<^verbatim>\<open>getValue\<close> still returns the old value and no hook has run; when the
  validator accepts the value, the value is stored and the \<^verbatim>\<open>onSet\<close> hook (when the
  subclass has one) is called with the key and the value.
\<close>

theorem setValue_atomic:
  assumes "validators s key = Some validator"
  shows "(validator newValue = Inr False \<longrightarrow>
            setValue key newValue s = (Inl (validationFailed key), s)
          \<and> getValue (snd (setValue key newValue s)) key = getValue s key
          \<and> hookCalls (snd (setValue key newValue s)) = hookCalls s)
       \<and> (validator newValue = Inr True \<longrightarrow>
            getValue (snd (setValue key newValue s)) key = Some newValue
          \<and> (case onSet s of
                None \<Rightarrow> setValue key newValue s
                           = (Inr (), s\<lparr>properties := (properties s)(key \<mapsto> newValue)\<rparr>)
              | Some hook \<Rightarrow> setValue key newValue s
                           = (hook key newValue,
                              s\<lparr>properties := (properties s)(key \<mapsto> newValue),
                                hookCalls := hookCalls s @ [OnSet key newValue]\<rparr>)))"
  using assms by (simp add: setValue_def callOnSet_def getValue_def split: option.split)

theorem setValue_atomic_witness:
  "validators ageStore ''age'' = Some nonNegative
   \<and> nonNegative (- 1) = Inr False
   \<and> setValue ''age'' (- 1) ageStore = (Inl (validationFailed ''age''), ageStore)
   \<and> getValue (snd (setValue ''age'' (- 1) ageStore)) ''age'' = Some 30
   \<and> nonNegative 31 = Inr True
   \<and> getValue (snd (setValue ''age'' 31 ageStore)) ''age'' = Some 31
   \<and> hookCalls (snd (setValue ''age'' 31 ageStore)) = [OnSet ''age'' 31]"
proof -
  have v: "validators ageStore ''age'' = Some nonNegative"
    by (simp add: ageStore_def)
  have r: "nonNegative (- 1) = Inr False" and a: "nonNegative 31 = Inr True"
    by (simp_all add: nonNegative_def)
  have h: "onSet ageStore = Some (\<lambda>key val. Inr ())"
    by (simp add: ageStore_def)
  have g: "getValue ageStore ''age'' = Some 30" "hookCalls ageStore = []"
    by (simp_all add: ageStore_def getValue_def)
  from setValue_atomic [OF v, of "- 1"] r g
  have 1: "setValue ''age'' (- 1) ageStore = (Inl (validationFailed ''age''), ageStore)"
    and 2: "getValue (snd (setValue ''age'' (- 1) ageStore)) ''age'' = Some 30"
    by simp_all
  from setValue_atomic [OF v, of 31] a h g
  have 3: "getValue (snd (setValue ''age'' 31 ageStore)) ''age'' = Some 31"
    and 4: "hookCalls (snd (setValue ''age'' 31 ageStore)) = [OnSet ''age'' 31]"
    by (simp_all add: getValue_def)
  from v r a 1 2 3 4 show ?thesis by simp
qed

text \<open>
  Claim C8 (validator invariant) does not hold when \<^verbatim>\<open>setNewProp\<close> counts as a set
  operation: it writes without looking at the validators. Here a validator is registered
  for \<^verbatim>\<open>age\<close> and rejects \<open>-1\<close>; \<^verbatim>\<open>setValue\<close> refuses the pair, \<^verbatim>\<open>setNewProp\<close>
  returns normally and stores it.
\<close>

theorem setNewProp_bypasses_validator:
  "validators ageStore ''age'' = Some nonNegative
   \<and> nonNegative (- 1) = Inr False
   \<and> fst (setValue ''age'' (- 1) ageStore) = Inl (validationFailed ''age'')
   \<and> fst (setNewProp ''age'' (- 1) ageStore) = Inr ()
   \<and> properties (snd (setNewProp ''age'' (- 1) ageStore)) ''age'' = Some (- 1)
   \<and> properties (performAll [SetNewProp ''age'' (- 1)] ageStore) ''age'' = Some (- 1)"
  by (simp add: ageStore_def nonNegative_def setNewProp_def setValue_def callOnSet_def)

text \<open>
  Claim C8 as amended: after any sequence of operations on a store (\<^verbatim>\<open>setValue\<close>,
  \<^verbatim>\<open>setNewProp\<close>, \<^verbatim>\<open>removeProp\<close>, \<^verbatim>\<open>resetProps\<close>, \<^verbatim>\<open>registerValidator\<close>), a
  \<^verbatim>\<open>setValue\<close> that returns normally has stored its pair, and either no validator was
  registered for the key at that time or the registered validator accepted the value.
  Writes by \<^verbatim>\<open>setNewProp\<close> and \<^verbatim>\<open>resetProps\<close> are not checked.
\<close>

theorem setValue_success_validated:
  assumes "fst (setValue key newValue (performAll operations s0)) = Inr ()"
  shows "(validators (performAll operations s0) key = None
          \<or> (\<exists>validator. validators (performAll operations s0) key = Some validator
                \<and> validator newValue = Inr True))
        \<and> properties (snd (setValue key newValue (performAll operations s0))) key = Some newValue"
  using assms
  by (auto simp add: setValue_def callOnSet_def split: option.splits sum.splits if_splits)

theorem setValue_success_validated_witness:
  "fst (setValue ''age'' 31
          (performAll [SetNewProp ''age'' (- 1), RemoveProp ''age''] ageStore)) = Inr ()
   \<and> validators (performAll [SetNewProp ''age'' (- 1), RemoveProp ''age''] ageStore) ''age''
       = Some nonNegative
   \<and> nonNegative 31 = Inr True
   \<and> properties (snd (setValue ''age'' 31
          (performAll [SetNewProp ''age'' (- 1), RemoveProp ''age''] ageStore))) ''age'' = Some 31"
proof -
  have h: "fst (setValue ''age'' 31
          (performAll [SetNewProp ''age'' (- 1), RemoveProp ''age''] ageStore)) = Inr ()"
    by (simp add: setValue_def setNewProp_def removeProp_def callOnSet_def ageStore_def
          nonNegative_def Let_def)
  have v: "validators (performAll [SetNewProp ''age'' (- 1), RemoveProp ''age''] ageStore) ''age''
       = Some nonNegative"
    by (simp add: setNewProp_def removeProp_def callOnSet_def ageStore_def Let_def)
  have a: "nonNegative 31 = Inr True"
    by (simp add: nonNegative_def)
  from setValue_success_validated [OF h]
  have "properties (snd (setValue ''age'' 31
          (performAll [SetNewProp ''age'' (- 1), RemoveProp ''age''] ageStore))) ''age'' = Some 31"
    by (rule conjunct2)
  with h v a show ?thesis by - (intro conjI, assumption+)
qed

section \<open>Controller: environment scope\<close>

text \<open>
  Claim C5 (default environment) does not hold of the code. \<^verbatim>\<open>Application.getEnv\<close>
  reads an unset \<^verbatim>\<open>NODE_ENV\<close> as \<^verbatim>\<open>development\<close>, but \<^verbatim>\<open>register\<close> compares
  \<^verbatim>\<open>envScope\<close> with \<^verbatim>\<open>process.env.NODE_ENV\<close> itself. With the variable unset, both
  routes of \<^verbatim>\<open>CoreController\<close> are skipped: \<^verbatim>\<open>register\<close> returns normally and binds
  nothing, so the serving phase of the router leaves the express router as it was.
\<close>

theorem unset_environment_registers_no_serving_route:
  "getEnv None = ''development''
   \<and> register inRouter None (CoreController x) router = (Inr (), router)
   \<and> expressRouter (registerServing inRouter None (a\<lparr>coreController := CoreController x\<rparr>))
       = expressRouter a"
  by (simp add: getEnv_def register_def CoreController_def routesInternal_def
        productionRoute_def developmentRoute_def registerServing_def)

text \<open>With the variable set to one of the two names, exactly that route is bound.\<close>

lemma development_registers_development_route:
  assumes "inRouter ''get''" and "vdsMiddleware x = Inr h"
  shows "register inRouter (Some ''development'') (CoreController x) router
     = (Inr (), router @ [RouteLayer ''get'' ''*'' (boundChain (developmentRoute x) [logRequest x, h])])"
  using assms
  by (simp add: register_def CoreController_def routesInternal_def isRequestMethod_def
        productionRoute_def developmentRoute_def)

lemma production_registers_production_route:
  assumes "inRouter ''get''"
  shows "register inRouter (Some ''production'') (CoreController x) router
     = (Inr (), router @ [RouteLayer ''get'' ''*'' (boundChain (productionRoute x) [serveStatic x])])"
  using assms
  by (simp add: register_def CoreController_def routesInternal_def isRequestMethod_def
        productionRoute_def developmentRoute_def)

text \<open>Whatever the variable holds, at most one of the two routes is bound.\<close>

lemma at_most_one_serving_route:
  "length (snd (register inRouter nodeEnv (CoreController x) router)) \<le> length router + 1"
  by (auto simp add: register_def CoreController_def routesInternal_def
        productionRoute_def developmentRoute_def split: sum.split)

section \<open>Controller: the endpoint wrapper\<close>

lemma registerRoutes_step:
  "registerRoutes inRouter nodeEnv (route # rest) router
      = registerRoutes inRouter nodeEnv rest router
   \<or> (\<exists>hs. registerRoutes inRouter nodeEnv (route # rest) router
          = registerRoutes inRouter nodeEnv rest
              (router @ [RouteLayer (routeMethod route) (path route) (boundChain route hs)]))
   \<or> (\<exists>e. registerRoutes inRouter nodeEnv (route # rest) router = (Inl e, router))"
  by (simp split: sum.split option.split) blast

lemma registerRoutes_layers:
  "registerRoutes inRouter nodeEnv rs router = (outcome, router') \<Longrightarrow>
   \<exists>new. router' = router @ new \<and>
     (\<forall>l \<in> set new. \<exists>route \<in> set rs. \<exists>hs.
         l = RouteLayer (routeMethod route) (path route) (boundChain route hs))"
proof (induction rs arbitrary: router)
  case Nil
  then show ?case by simp
next
  case (Cons route rest)
  let ?step = "registerRoutes inRouter nodeEnv (route # rest) router"
  from registerRoutes_step [of inRouter nodeEnv route rest router]
  consider (skip) "?step = registerRoutes inRouter nodeEnv rest router"
    | (bind) hs where "?step = registerRoutes inRouter nodeEnv rest
              (router @ [RouteLayer (routeMethod route) (path route) (boundChain route hs)])"
    | (throw) e where "?step = (Inl e, router)"
    by blast
  then show ?case
  proof cases
    case skip
    with Cons.prems have "registerRoutes inRouter nodeEnv rest router = (outcome, router')"
      by simp
    from Cons.IH [OF this] show ?thesis by auto
  next
    case bind
    with Cons.prems have "registerRoutes inRouter nodeEnv rest
            (router @ [RouteLayer (routeMethod route) (path route) (boundChain route hs)])
          = (outcome, router')"
      by simp
    from Cons.IH [OF this] obtain new where
      n: "router' = (router @ [RouteLayer (routeMethod route) (path route) (boundChain route hs)]) @ new"
      and a: "\<forall>l \<in> set new. \<exists>r \<in> set rest. \<exists>hs.
         l = RouteLayer (routeMethod r) (path r) (boundChain r hs)"
      by blast
    have "router' = router @ (RouteLayer (routeMethod route) (path route) (boundChain route hs) # new)"
      using n by simp
    moreover have "\<forall>l \<in> set (RouteLayer (routeMethod route) (path route) (boundChain route hs) # new).
          \<exists>r \<in> set (route # rest). \<exists>hs. l = RouteLayer (routeMethod r) (path r) (boundChain r hs)"
      using a by auto
    ultimately show ?thesis by blast
  next
    case throw
    with Cons.prems have "router' = router" by simp
    then show ?thesis by simp
  qed
qed

text \<open>
  Claim C6 (error wrapping) does not hold of the code. The wrapper puts \<^verbatim>\<open>next(error)\<close>
  after the call of \<^verbatim>\<open>errorFn\<close> inside the same \<^verbatim>\<open>catch\<close> block, with nothing around
  that call: when \<^verbatim>\<open>errorFn\<close> itself throws, the block is left before
  \<^verbatim>\<open>next(error)\<close>. The route below is registered, its endpoint throws, its
  \<^verbatim>\<open>errorFn\<close> throws, and the wrapper rejects with the error of \<^verbatim>\<open>errorFn\<close> without
  any call of \<^verbatim>\<open>next\<close>.
\<close>

theorem throwing_errorFn_suppresses_next:
  "registerRoutes inExpressRouter None [brokenHookRoute] ([] :: (nat, nat, nat) layer list)
     = (Inr (), [RouteLayer ''get'' ''/boom'' [EndpointWrapper throwingEndpoint (Some throwingErrorFn)]])
   \<and> throwingEndpoint 0 = ([], Inl (Error ''endpoint failed''))
   \<and> runBound passOn (EndpointWrapper throwingEndpoint (Some throwingErrorFn)) 0
        = ([], Inl (Error ''errorFn failed''))"
  by (simp add: brokenHookRoute_def plainRoute_def isRequestMethod_def inExpressRouter_def
        boundChain_def runEndpointWrapper_def throwingEndpoint_def throwingErrorFn_def)

text \<open>
  The other paths forward the error. For every route that \<^verbatim>\<open>register\<close> binds, the last
  function of the chain is the wrapper around the route's endpoint, and for every request
  on which the endpoint throws or rejects with an error: without \<^verbatim>\<open>errorFn\<close> the
  wrapper calls \<^verbatim>\<open>next(error)\<close>; with an \<^verbatim>\<open>errorFn\<close> that returns, the wrapper has
  called it with the error and then calls \<^verbatim>\<open>next(error)\<close>, whatever \<^verbatim>\<open>errorFn\<close> did.
\<close>

lemma endpoint_error_forwarded:
  assumes "registerRoutes inRouter nodeEnv rs router = (outcome, router')"
    and "RouteLayer m p chain \<in> set (drop (length router) router')"
  shows "\<exists>route \<in> set rs.
      last chain = EndpointWrapper (endpointFn route) (errorFn route)
    \<and> (\<forall>req done e. endpointFn route req = (done, Inl e) \<longrightarrow>
          (errorFn route = None \<longrightarrow>
             runBound runHandler (last chain) req = (done @ [Next (Some e)], Inr ()))
        \<and> (\<forall>hook done'. errorFn route = Some hook \<longrightarrow> hook e req = (done', Inr ()) \<longrightarrow>
             runBound runHandler (last chain) req = (done @ done' @ [Next (Some e)], Inr ())))"
proof -
  from registerRoutes_layers [OF assms(1)] obtain new where
    n: "router' = router @ new"
    and a: "\<forall>l \<in> set new. \<exists>route \<in> set rs. \<exists>hs.
         l = RouteLayer (routeMethod route) (path route) (boundChain route hs)"
    by blast
  from assms(2) n have "RouteLayer m p chain \<in> set new" by simp
  with a obtain route hs where r: "route \<in> set rs" and c: "chain = boundChain route hs"
    by auto
  have l: "last chain = EndpointWrapper (endpointFn route) (errorFn route)"
    by (simp add: c boundChain_def)
  have "\<forall>req done e. endpointFn route req = (done, Inl e) \<longrightarrow>
          (errorFn route = None \<longrightarrow>
             runBound runHandler (last chain) req = (done @ [Next (Some e)], Inr ()))
        \<and> (\<forall>hook done'. errorFn route = Some hook \<longrightarrow> hook e req = (done', Inr ()) \<longrightarrow>
             runBound runHandler (last chain) req = (done @ done' @ [Next (Some e)], Inr ()))"
    by (simp add: l runEndpointWrapper_def)
  with r l show ?thesis by blast
qed

lemma endpoint_error_forwarded_example:
  "registerRoutes inExpressRouter None [loggedRoute] ([] :: (nat, nat, nat) layer list)
     = (Inr (), [RouteLayer ''get'' ''/logged'' [EndpointWrapper throwingEndpoint (Some loggingErrorFn)]])
   \<and> RouteLayer ''get'' ''/logged'' [EndpointWrapper throwingEndpoint (Some loggingErrorFn)]
       \<in> set (drop (length ([] :: (nat, nat, nat) layer list))
            ([RouteLayer ''get'' ''/logged'' [EndpointWrapper throwingEndpoint (Some loggingErrorFn)]]
               :: (nat, nat, nat) layer list))
   \<and> throwingEndpoint 0 = ([], Inl (Error ''endpoint failed''))
   \<and> runBound passOn (last [EndpointWrapper throwingEndpoint (Some loggingErrorFn)]) 0
        = ([Next (Some (Error ''endpoint failed''))], Inr ())"
proof -
  let ?layer = "RouteLayer ''get'' ''/logged'' [EndpointWrapper throwingEndpoint (Some loggingErrorFn)]
                  :: (nat, nat, nat) layer"
  have h1: "registerRoutes inExpressRouter None [loggedRoute] ([] :: (nat, nat, nat) layer list)
     = (Inr (), [?layer])"
    by (simp add: loggedRoute_def plainRoute_def isRequestMethod_def inExpressRouter_def boundChain_def)
  have h2: "?layer \<in> set (drop (length ([] :: (nat, nat, nat) layer list)) [?layer])"
    by simp
  have t: "throwingEndpoint 0 = ([], Inl (Error ''endpoint failed''))"
    by (simp add: throwingEndpoint_def)
  have f: "endpointFn loggedRoute = throwingEndpoint" "errorFn loggedRoute = Some loggingErrorFn"
    by (simp_all add: loggedRoute_def plainRoute_def)
  have g: "loggingErrorFn (Error ''endpoint failed'') 0 = ([], Inr ())"
    by (simp add: loggingErrorFn_def)
  from endpoint_error_forwarded [OF h1 h2, of passOn] obtain route where
    r: "route \<in> set [loggedRoute]"
    and b: "\<And>req done e hook done'. endpointFn route req = (done, Inl e) \<Longrightarrow>
         errorFn route = Some hook \<Longrightarrow> hook e req = (done', Inr ()) \<Longrightarrow>
         runBound passOn (last [EndpointWrapper throwingEndpoint (Some loggingErrorFn)]) req
           = (done @ done' @ [Next (Some e)], Inr ())"
    by blast
  from r have "route = loggedRoute" by simp
  with f t have "endpointFn route 0 = ([], Inl (Error ''endpoint failed''))"
    and "errorFn route = Some loggingErrorFn"
    by simp_all
  from b [OF this g]
  have "runBound passOn (last [EndpointWrapper throwingEndpoint (Some loggingErrorFn)]) 0
        = ([Next (Some (Error ''endpoint failed''))], Inr ())"
    by simp
  with h1 h2 t show ?thesis by - (intro conjI, assumption+)
qed

section \<open>AppRouter: a controller that fails to register\<close>

lemma registerEach_append:
  "registerEach inRouter nodeEnv (xs @ ys) router =
     (case registerEach inRouter nodeEnv xs router of
        (Inl e, router') \<Rightarrow> (Inl e, router')
      | (Inr u, router') \<Rightarrow> registerEach inRouter nodeEnv ys router')"
  by (induction xs arbitrary: router) (auto split: prod.split sum.split)

text \<open>
  Claim C10 (abort inside the controller phase). When \<^verbatim>\<open>register\<close> of a controller
  throws, after the controllers before it have registered, the controller phase ends with
  the router as that throw left it: no later controller is registered, whatever it is.
  The serving controller, the views (outside development) and the fallback are still
  registered after that, in this order.
\<close>

theorem failing_controller_aborts_phase_only:
  assumes "controllers a = before @ c # later"
    and "registerEach inRouter nodeEnv before (expressRouter a) = (Inr (), r1)"
    and "register inRouter nodeEnv c r1 = (Inl e, r2)"
  shows "expressRouter (registerControllers inRouter nodeEnv a) = r2
       \<and> expressRouter (initialize inRouter nodeEnv a)
           = snd (register inRouter nodeEnv (coreController a) r2)
             @ (if nodeEnv = Some ''development'' then []
                else map (\<lambda>(viewPath, component). ViewLayer viewPath component) (viewMap a))
             @ [FallbackLayer]"
  using assms
  by (simp add: initialize_def registerFallback_def registerViews_def registerServing_def
        registerControllers_def registerEach_append)

theorem failing_controller_aborts_phase_only_witness:
  "controllers sampleRouter = [sampleControllers ! 0] @ sampleControllers ! 1 # [sampleControllers ! 2]
   \<and> registerEach inExpressRouter (Some ''production'') [sampleControllers ! 0] (expressRouter sampleRouter)
       = (Inr (), [RouteLayer ''get'' ''/a'' [EndpointWrapper respondOk None]])
   \<and> register inExpressRouter (Some ''production'') (sampleControllers ! 1)
         ([RouteLayer ''get'' ''/a'' [EndpointWrapper respondOk None]] :: (nat, nat, nat) layer list)
       = (Inl (methodNotRecognized ''fetch''),
          [RouteLayer ''get'' ''/a'' [EndpointWrapper respondOk None],
           RouteLayer ''get'' ''/b1'' [EndpointWrapper respondOk None]])
   \<and> expressRouter (initialize inExpressRouter (Some ''production'') sampleRouter)
       = [RouteLayer ''get'' ''/a'' [EndpointWrapper respondOk None],
          RouteLayer ''get'' ''/b1'' [EndpointWrapper respondOk None],
          RouteLayer ''get'' ''*'' (boundChain (productionRoute sampleServing) [0]),
          ViewLayer ''/'' 0, ViewLayer ''/test'' 1, FallbackLayer]"
proof -
  let ?r1 = "[RouteLayer ''get'' ''/a'' [EndpointWrapper respondOk None]] :: (nat, nat, nat) layer list"
  let ?r2 = "[RouteLayer ''get'' ''/a'' [EndpointWrapper respondOk None],
           RouteLayer ''get'' ''/b1'' [EndpointWrapper respondOk None]] :: (nat, nat, nat) layer list"
  have h1: "controllers sampleRouter
      = [sampleControllers ! 0] @ sampleControllers ! 1 # [sampleControllers ! 2]"
    by (simp add: sampleRouter_def sampleControllers_def)
  have h2: "registerEach inExpressRouter (Some ''production'') [sampleControllers ! 0]
       (expressRouter sampleRouter) = (Inr (), ?r1)"
    by (simp add: sampleRouter_def sampleControllers_def register_def plainRoute_def
          isRequestMethod_def inExpressRouter_def boundChain_def)
  have h3: "register inExpressRouter (Some ''production'') (sampleControllers ! 1) ?r1
       = (Inl (methodNotRecognized ''fetch''), ?r2)"
    by (simp add: sampleControllers_def register_def plainRoute_def
          isRequestMethod_def inExpressRouter_def boundChain_def)
  have s: "snd (register inExpressRouter (Some ''production'') (coreController sampleRouter) ?r2)
      = ?r2 @ [RouteLayer ''get'' ''*'' (boundChain (productionRoute sampleServing) [0])]"
    by (simp add: sampleRouter_def register_def CoreController_def routesInternal_def
          productionRoute_def developmentRoute_def isRequestMethod_def inExpressRouter_def
          sampleServing_def)
  have v: "viewMap sampleRouter = [(''/'', 0), (''/test'', 1)]"
    by (simp add: sampleRouter_def)
  from failing_controller_aborts_phase_only [OF h1 h2 h3]
  have "expressRouter (initialize inExpressRouter (Some ''production'') sampleRouter)
       = [RouteLayer ''get'' ''/a'' [EndpointWrapper respondOk None],
          RouteLayer ''get'' ''/b1'' [EndpointWrapper respondOk None],
          RouteLayer ''get'' ''*'' (boundChain (productionRoute sampleServing) [0]),
          ViewLayer ''/'' 0, ViewLayer ''/test'' 1, FallbackLayer]"
    by (simp add: s v)
  with h1 h2 h3 show ?thesis by - (intro conjI, assumption+)
qed

section \<open>Shutdown: order of the listener and the engine\<close>

text \<open>
  Claim C9 (shutdown ordering) does not hold of the code. The router's handler closes the
  listener before it calls \<^verbatim>\<open>shutdownVDS\<close>, but the \<^verbatim>\<open>VDS\<close> constructor has put its
  own listener on \<^verbatim>\<open>SIGINT\<close> before the router's handler was added. On \<^verbatim>\<open>SIGINT\<close>,
  with a live engine, that listener runs first and calls \<^verbatim>\<open>close()\<close> on the engine
  before \<^verbatim>\<open>server.close\<close> is even called, in production as in development. The two
  full runs are the ones in which the engine's \<^verbatim>\<open>close()\<close> settles before the listener
  is closed.
\<close>

theorem sigint_closes_engine_before_listener:
  "instanceVDS (devServer (started (Inr 7))) = Some 7
   \<and> trace (runProcess nodeEnv [Signal SIGINT] (started (Inr 7)))
       = [ShutdownVDS (Some 7), ListenerCloseCalled]
   \<and> trace (runProcess (Some ''production'')
               [Signal SIGINT, EngineCloseSettled (Inr ()), ListenerCloseSettled None]
               (started (Inr 7)))
       = [ShutdownVDS (Some 7), ListenerCloseCalled, ListenerClosed None,
          ShutdownVDS None, Exit 0]
   \<and> trace (runProcess (Some ''development'')
               [Signal SIGINT, EngineCloseSettled (Inr ()), ListenerCloseSettled None]
               (started (Inr 7)))
       = [ShutdownVDS (Some 7), ListenerCloseCalled, ListenerClosed None,
          ShutdownVDS None, ShutdownVDS None, Exit 0]"
  by (simp add: started_def newVDS_def getVDS_def settle_def Let_def vdsSigintListener_def
        callShutdownVDS_def shutdownVDS_def resumeShutdownVDS_def shutdownHandler_def
        listenerCloseCallback_def processExit_def vdsExitListener_def)

text \<open>Events are only ever added, whatever happens.\<close>

lemma processExit_trace:
  "\<exists>more. trace (processExit code p) = trace p @ more"
  by (simp add: processExit_def vdsExitListener_def Let_def split: prod.split)

lemma returnTo_trace:
  "\<exists>more. trace (returnTo who outcome p) = trace p @ more"
  using processExit_trace [of _ p]
  by (cases who) (auto split: sum.split)

lemma callShutdownVDS_trace:
  "\<exists>more. trace (callShutdownVDS who p) = trace p @ more"
proof (cases "instanceVDS (devServer p)")
  case None
  let ?p1 = "p\<lparr>trace := trace p @ [ShutdownVDS None]\<rparr>"
  from None have "callShutdownVDS who p = returnTo who (Inr ()) ?p1"
    by (simp add: callShutdownVDS_def shutdownVDS_def)
  moreover from returnTo_trace [of who "Inr ()" ?p1]
  obtain more where "trace (returnTo who (Inr ()) ?p1) = trace ?p1 @ more" by blast
  ultimately show ?thesis by simp
next
  case (Some srv)
  then show ?thesis by (simp add: callShutdownVDS_def shutdownVDS_def)
qed

lemma occur_trace:
  "\<exists>more. trace (occur nodeEnv x p) = trace p @ more"
proof (cases x)
  case (Signal sig)
  have "\<exists>more. trace (shutdownHandler q) = trace q @ more" for q
    by (simp add: shutdownHandler_def)
  moreover have "\<exists>more. trace (vdsSigintListener q) = trace q @ more" for q
    using callShutdownVDS_trace by (simp add: vdsSigintListener_def)
  ultimately have "\<exists>more. trace (deliver sig p) = trace p @ more"
    by (cases sig) (auto simp add: Let_def, metis append.assoc)
  with Signal show ?thesis by auto
next
  case (EngineCloseSettled tried)
  show ?thesis
  proof (cases "exitCode p \<noteq> None \<or> suspended p = []")
    case True
    with EngineCloseSettled show ?thesis by (auto split: list.split)
  next
    case False
    then obtain who rest where s: "suspended p = who # rest" by (cases "suspended p") auto
    let ?q = "p\<lparr>devServer := snd (resumeShutdownVDS tried (devServer p)), suspended := rest\<rparr>"
    from False s EngineCloseSettled
    have "occur nodeEnv x p = returnTo who (fst (resumeShutdownVDS tried (devServer p))) ?q"
      by (simp add: split_beta)
    moreover from returnTo_trace [of who _ ?q]
    obtain more where
      "trace (returnTo who (fst (resumeShutdownVDS tried (devServer p))) ?q) = trace ?q @ more"
      by blast
    ultimately show ?thesis by simp
  qed
next
  case (ListenerCloseSettled listenerError)
  let ?p1 = "p\<lparr>listenerClosing := False, trace := trace p @ [ListenerClosed listenerError]\<rparr>"
  from processExit_trace [of _ ?p1] callShutdownVDS_trace [of RouterCallback ?p1]
  have "\<exists>more. trace (listenerCloseCallback nodeEnv listenerError p) = trace p @ more"
    by (auto simp add: listenerCloseCallback_def Let_def split: option.split)
  with ListenerCloseSettled show ?thesis by auto
qed

lemma runProcess_trace:
  "\<exists>more. trace (runProcess nodeEnv xs p) = trace p @ more"
proof (induction xs arbitrary: p)
  case Nil
  then show ?case by simp
next
  case (Cons x xs)
  from occur_trace [of nodeEnv x p] obtain m1 where
    "trace (occur nodeEnv x p) = trace p @ m1" by blast
  moreover from Cons.IH [of "occur nodeEnv x p"] obtain m2 where
    "trace (runProcess nodeEnv xs (occur nodeEnv x p)) = trace (occur nodeEnv x p) @ m2"
    by blast
  ultimately show ?case by simp
qed

text \<open>
  So whatever comes after the \<^verbatim>\<open>SIGINT\<close>, in whatever order and in whatever
  environment, the run starts with the close of the engine, then the call of
  \<^verbatim>\<open>server.close\<close>.
\<close>

lemma sigint_engine_first_in_every_run:
  "take 2 (trace (runProcess nodeEnv (Signal SIGINT # xs) (started (Inr 7))))
     = [ShutdownVDS (Some 7), ListenerCloseCalled]"
proof -
  let ?p = "occur nodeEnv (Signal SIGINT) (started (Inr 7))"
  have t: "trace ?p = [ShutdownVDS (Some 7), ListenerCloseCalled]"
    by (simp add: started_def newVDS_def getVDS_def settle_def Let_def vdsSigintListener_def
          callShutdownVDS_def shutdownVDS_def shutdownHandler_def)
  from runProcess_trace [of nodeEnv xs ?p] obtain more where
    "trace (runProcess nodeEnv xs ?p) = trace ?p @ more" by blast
  with t show ?thesis by simp
qed

text \<open>
  When the listener is closed before the engine's \<^verbatim>\<open>close()\<close> has settled, the
  router's callback (in development) or the \<^verbatim>\<open>exit\<close> listener (in production) calls
  \<^verbatim>\<open>close()\<close> on the same engine a second time.
\<close>

lemma sigint_closes_engine_twice:
  "trace (runProcess (Some ''production'') [Signal SIGINT, ListenerCloseSettled None]
            (started (Inr 7)))
     = [ShutdownVDS (Some 7), ListenerCloseCalled, ListenerClosed None,
        ShutdownVDS (Some 7), Exit 0]
   \<and> trace (runProcess (Some ''development'')
              [Signal SIGINT, ListenerCloseSettled None, EngineCloseSettled (Inr ())]
              (started (Inr 7)))
     = [ShutdownVDS (Some 7), ListenerCloseCalled, ListenerClosed None,
        ShutdownVDS (Some 7)]"
  by (simp add: started_def newVDS_def getVDS_def settle_def Let_def vdsSigintListener_def
        callShutdownVDS_def shutdownVDS_def resumeShutdownVDS_def shutdownHandler_def
        listenerCloseCallback_def processExit_def vdsExitListener_def)

text \<open>
  On \<^verbatim>\<open>SIGTERM\<close> only the router's handler runs. In development it closes the engine
  after the listener; in production it does not call \<^verbatim>\<open>shutdownVDS\<close>, and the
  \<^verbatim>\<open>exit\<close> listener of the \<^verbatim>\<open>VDS\<close> constructor does.
\<close>

lemma sigterm_closes_listener_first:
  "trace (runProcess (Some ''development'')
            [Signal SIGTERM, ListenerCloseSettled None, EngineCloseSettled (Inr ())]
            (started (Inr 7)))
     = [ListenerCloseCalled, ListenerClosed None, ShutdownVDS (Some 7), ShutdownVDS None, Exit 0]
   \<and> trace (runProcess (Some ''production'') [Signal SIGTERM, ListenerCloseSettled None]
              (started (Inr 7)))
     = [ListenerCloseCalled, ListenerClosed None, ShutdownVDS (Some 7), Exit 0]"
  by (simp add: started_def newVDS_def getVDS_def settle_def Let_def
        callShutdownVDS_def shutdownVDS_def resumeShutdownVDS_def shutdownHandler_def
        listenerCloseCallback_def processExit_def vdsExitListener_def)

text \<open>
  The router's handler on its own: a second call is a no-op; a first call only calls
  \<^verbatim>\<open>server.close\<close>. Its callback records the close of the listener before anything
  else; a failed close exits with 1 without a call of \<^verbatim>\<open>shutdownVDS\<close> by the
  callback; outside development a successful close exits with 0.
\<close>

lemma shutdownHandler_listener_first:
  "(shuttingDown p \<longrightarrow> shutdownHandler p = p)
   \<and> (\<not> shuttingDown p \<longrightarrow>
        trace (shutdownHandler p) = trace p @ [ListenerCloseCalled]
      \<and> devServer (shutdownHandler p) = devServer p
      \<and> exitCode (shutdownHandler p) = exitCode p)"
  by (simp add: shutdownHandler_def)

lemma listenerCloseCallback_exit_codes:
  "take (length (trace p) + 1) (trace (listenerCloseCallback nodeEnv listenerError p))
     = trace p @ [ListenerClosed listenerError]
   \<and> (listenerError \<noteq> None \<longrightarrow>
        exitCode (listenerCloseCallback nodeEnv listenerError p) = Some 1)
   \<and> (listenerError = None \<and> nodeEnv \<noteq> Some ''development'' \<longrightarrow>
        exitCode (listenerCloseCallback nodeEnv listenerError p) = Some 0)"
  by (auto simp add: listenerCloseCallback_def processExit_def vdsExitListener_def
        callShutdownVDS_def Let_def split: option.split prod.split shutdownCall.split)

text \<open>
  In development the callback exits with 0 once its call of \<^verbatim>\<open>shutdownVDS\<close> has
  returned, also when the engine's \<^verbatim>\<open>close()\<close> rejected, since \<^verbatim>\<open>shutdownVDS\<close>
  swallows that error.
\<close>

lemma failed_engine_close_exits_with_0:
  "exitCode (runProcess (Some ''development'')
      [Signal SIGTERM, ListenerCloseSettled None, EngineCloseSettled (Inl (Error ''close failed''))]
      (started (Inr 7))) = Some 0"
  by (simp add: started_def newVDS_def getVDS_def settle_def Let_def
        callShutdownVDS_def shutdownVDS_def resumeShutdownVDS_def shutdownHandler_def
        listenerCloseCallback_def processExit_def vdsExitListener_def)

end
